theory Spec2Isabelle
  imports Main "HOL-Library.Sublist"
begin

section \<open>Python string primitives used by the sources\<close>

text \<open>
  A Python \<open>str\<close> is modelled as a \<open>string\<close> whose characters are code points below 256,
  one \<open>char\<close> per code point.  The classes below are those of \<open>str.isspace\<close> and
  \<open>str.isdigit\<close> on that range.
\<close>

definition isspace :: "char \<Rightarrow> bool" where
  "isspace c = (c \<in> set [CHR 0x09, CHR 0x0A, CHR 0x0B, CHR 0x0C, CHR 0x0D,
                         CHR 0x1C, CHR 0x1D, CHR 0x1E, CHR 0x1F, CHR 0x20, CHR 0x85, CHR 0xA0])"

definition isdigit :: "char \<Rightarrow> bool" where
  "isdigit c = (c \<in> set (''0123456789'' @ [CHR 0xB2, CHR 0xB3, CHR 0xB9]))"

definition lstrip :: "string \<Rightarrow> string" where
  "lstrip s = dropWhile isspace s"

definition rstrip :: "string \<Rightarrow> string" where
  "rstrip s = rev (dropWhile isspace (rev s))"

definition strip :: "string \<Rightarrow> string" where
  "strip s = rstrip (lstrip s)"

definition startswith :: "string \<Rightarrow> string \<Rightarrow> bool" where
  "startswith s p = (take (length p) s = p)"

text \<open>\<open>s.split(c)\<close> for a separator of one character: never an empty list.\<close>

fun split_on :: "char \<Rightarrow> string \<Rightarrow> string list" where
  "split_on c [] = [[]]"
| "split_on c (x # xs) =
     (if x = c then [] # split_on c xs
      else (case split_on c xs of
              w # ws \<Rightarrow> (x # w) # ws
            | [] \<Rightarrow> [[x]]))"

text \<open>\<open>s.split(c, 1)[-1]\<close>: what follows the first \<open>c\<close>, or all of \<open>s\<close> when there is none.\<close>

definition split1_last :: "char \<Rightarrow> string \<Rightarrow> string" where
  "split1_last c s = (if c \<in> set s then tl (dropWhile (\<lambda>x. x \<noteq> c) s) else s)"

text \<open>\<open>s.replace(old, new)\<close>: every occurrence, found from the left, without overlap.\<close>

function replace_nonempty :: "string \<Rightarrow> string \<Rightarrow> string \<Rightarrow> string" where
  "replace_nonempty old new [] = []"
| "replace_nonempty old new (c # cs) =
     (if old \<noteq> [] \<and> startswith (c # cs) old
      then new @ replace_nonempty old new (drop (length old) (c # cs))
      else c # replace_nonempty old new cs)"
  by pat_completeness auto
termination
  by (relation "measure (\<lambda>(old, new, s). length s)") (auto simp: startswith_def)

definition replace :: "string \<Rightarrow> string \<Rightarrow> string \<Rightarrow> string" where
  "replace old new s =
     (if old = [] then new @ concat (map (\<lambda>c. c # new) s) else replace_nonempty old new s)"

text \<open>\<open>str(n)\<close> of an integer, as an f-string prints it.\<close>

definition digit_char :: "nat \<Rightarrow> char" where
  "digit_char d = char_of (48 + d)"

fun str_nat :: "nat \<Rightarrow> string" where
  "str_nat n = (if n < 10 then [digit_char n] else str_nat (n div 10) @ [digit_char (n mod 10)])"

definition str_int :: "int \<Rightarrow> string" where
  "str_int i = (if i < 0 then CHR ''-'' # str_nat (nat (- i)) else str_nat (nat i))"

section \<open>Errors\<close>

text \<open>
  A raised exception is a value.  Each carries the text \<open>str(e)\<close> gives.  All three are
  instances of Python's \<open>Exception\<close>; \<open>TimeoutExpired\<close> is the one of \<open>subprocess\<close>, and
  \<open>Exception\<close> stands for every other class below \<open>Exception\<close>.
\<close>

datatype error =
    IndexError string
  | TimeoutExpired string
  | Exception string

fun str_error :: "error \<Rightarrow> string" where
  "str_error (IndexError m) = m"
| "str_error (TimeoutExpired m) = m"
| "str_error (Exception m) = m"

section \<open>state.py: the assessment plan\<close>

record AssessmentPlan =
  objective :: string
  steps :: "string list"
  current_step :: int
  findings :: "string list"

text \<open>The constructor call of the planner: \<open>current_step\<close> and \<open>findings\<close> take their defaults.\<close>

definition new_plan :: "string \<Rightarrow> string list \<Rightarrow> AssessmentPlan" where
  "new_plan obj ss = \<lparr>objective = obj, steps = ss, current_step = 0, findings = []\<rparr>"

text \<open>
  \<open>xs[i]\<close>: an index from \<open>-len(xs)\<close> up to \<open>len(xs) - 1\<close> is served (the negative ones
  from the back), every other one raises.
\<close>

definition py_index :: "'a list \<Rightarrow> int \<Rightarrow> error + 'a" where
  "py_index xs i =
     (if 0 \<le> i \<and> i < int (length xs) then Inr (xs ! nat i)
      else if i < 0 \<and> - i \<le> int (length xs) then Inr (xs ! nat (int (length xs) + i))
      else Inl (IndexError ''list index out of range''))"

definition next_step :: "AssessmentPlan \<Rightarrow> error + string option" where
  "next_step p =
     (if current_step p < int (length (steps p))
      then (case py_index (steps p) (current_step p) of
              Inl e \<Rightarrow> Inl e
            | Inr s \<Rightarrow> Inr (Some s))
      else Inr None)"

definition advance :: "AssessmentPlan \<Rightarrow> AssessmentPlan" where
  "advance p = p\<lparr>current_step := current_step p + 1\<rparr>"

definition is_complete :: "AssessmentPlan \<Rightarrow> bool" where
  "is_complete p = (current_step p \<ge> int (length (steps p)))"

text \<open>The invariant the data model asks of the cursor.\<close>

definition plan_in_bounds :: "AssessmentPlan \<Rightarrow> bool" where
  "plan_in_bounds p = (0 \<le> current_step p \<and> current_step p \<le> int (length (steps p)))"


section \<open>tools/base.py: running a command and formatting its result\<close>

record CommandResult =
  stdout :: string
  stderr :: string
  returncode :: int

definition success :: "CommandResult \<Rightarrow> bool" where
  "success r = (returncode r = 0)"

definition output_text :: "CommandResult \<Rightarrow> string" where
  "output_text r = (if stdout r \<noteq> [] then stdout r else stderr r)"

text \<open>
  \<open>subprocess.run(command, shell=shell, capture_output=True, text=True, timeout=timeout)\<close>
  belongs to the host: it is a parameter, which either completes with the two captured
  streams and the exit code or raises.
\<close>

record CompletedProcess =
  cp_stdout :: string
  cp_stderr :: string
  cp_returncode :: int

type_synonym subprocess = "string \<Rightarrow> bool \<Rightarrow> int \<Rightarrow> error + CompletedProcess"

text \<open>
  The \<open>try\<close> of \<open>run_command\<close>: the first \<open>except\<close> clause takes \<open>TimeoutExpired\<close>, the
  second every other \<open>Exception\<close>.  Exceptions outside \<open>Exception\<close> (an interrupt from the
  keyboard, the exit of the interpreter) are signals from outside and have no place here.
\<close>

definition run_command :: "subprocess \<Rightarrow> string \<Rightarrow> int \<Rightarrow> bool \<Rightarrow> error + CommandResult" where
  "run_command subprocess_run command timeout shell =
     (case subprocess_run command shell timeout of
        Inr result \<Rightarrow>
          Inr \<lparr>stdout = cp_stdout result, stderr = cp_stderr result,
               returncode = cp_returncode result\<rparr>
      | Inl (TimeoutExpired m) \<Rightarrow>
          Inr \<lparr>stdout = [], stderr = ''Command timed out after '' @ str_int timeout @ ''s'',
               returncode = - 1\<rparr>
      | Inl e \<Rightarrow>
          Inr \<lparr>stdout = [], stderr = str_error e, returncode = - 1\<rparr>)"

definition format_command_output :: "CommandResult \<Rightarrow> bool \<Rightarrow> bool \<Rightarrow> string" where
  "format_command_output result include_stderr include_returncode =
     (let output0 = stdout result;
          output1 =
            (if include_stderr \<and> stderr result \<noteq> []
             then (if output0 \<noteq> [] then output0 @ ''\<newline>STDERR: '' @ stderr result
                   else stderr result)
             else output0);
          output2 =
            (if include_returncode \<and> \<not> success result
             then output1 @ ''\<newline>Return code: '' @ str_int (returncode result)
             else output1)
      in if output2 \<noteq> [] then output2 else ''(no output)'')"

text \<open>tools/credentials/ssh.py: one tool of the registry, on the default timeout of 30.\<close>

definition find_ssh_keys :: "subprocess \<Rightarrow> error + string" where
  "find_ssh_keys subprocess_run =
     (case run_command subprocess_run
             (''ls -la ~/.ssh/ 2>/dev/null || echo '' @ [CHR 0x27] @ ''No .ssh directory found''
                @ [CHR 0x27])
             30 True of
        Inl e \<Rightarrow> Inl e
      | Inr result \<Rightarrow> Inr (output_text result))"


section \<open>agent.py: messages, prompts and the planner's parser\<close>

text \<open>
  The message classes of the chat library.  Only an assistant message carries tool calls;
  a tool call is a name, an argument mapping and an identifier.
\<close>

record tool_call =
  tc_name :: string
  tc_args :: "(string \<times> string) list"
  tc_id :: string

datatype message =
    SystemMessage string
  | HumanMessage string
  | AIMessage string "tool_call list"
  | ToolMessage string string

fun content :: "message \<Rightarrow> string" where
  "content (SystemMessage c) = c"
| "content (HumanMessage c) = c"
| "content (AIMessage c tcs) = c"
| "content (ToolMessage c i) = c"

text \<open>\<open>hasattr(m, "tool_calls") and m.tool_calls\<close>: the calls, none where the attribute is absent.\<close>

fun tool_calls :: "message \<Rightarrow> tool_call list" where
  "tool_calls (AIMessage c tcs) = tcs"
| "tool_calls m = []"

definition SYSTEM_PROMPT :: string where
  "SYSTEM_PROMPT =
     ''You are a security assessment agent analyzing a macOS endpoint.\<newline>'' @
     ''Your goal is to identify potential security risks and answer:\<newline>'' @
     ''- If this endpoint was compromised, what would be the impact?\<newline>'' @
     ''- Where could an attacker pivot to?\<newline>'' @
     ''- What data could be stolen?\<newline>'' @
     ''- What credentials could be taken?\<newline>'' @
     ''\<newline>'' @
     ''You operate in phases:\<newline>'' @
     ''1. PLANNING: Create a structured assessment plan based on the objective\<newline>'' @
     ''2. EXECUTING: Execute your plan using available tools\<newline>'' @
     ''3. REPORTING: Summarize findings and their security implications\<newline>'' @
     ''\<newline>'' @
     ''Be thorough but efficient. Focus on high-impact findings.\<newline>'' @
     ''Always explain the security implications of what you discover.\<newline>''"

definition PLANNER_PROMPT :: string where
  "PLANNER_PROMPT =
     ''Based on the user'' @ [CHR 0x27] @
     ''s objective, create a security assessment plan.\<newline>'' @
     ''\<newline>'' @
     ''You must respond with a structured plan in this exact format:\<newline>'' @
     ''OBJECTIVE: <one line summary of what we'' @ [CHR 0x27] @ ''re assessing>\<newline>'' @
     ''STEPS:\<newline>'' @
     ''1. <first step>\<newline>'' @
     ''2. <second step>\<newline>'' @
     ''...\<newline>'' @
     ''\<newline>'' @
     ''Keep steps concrete and actionable. Focus on the most impactful checks first.\<newline>'' @
     ''Typically 5-10 steps is appropriate for a focused assessment.\<newline>''"

text \<open>The f-string of the executor; an absent step prints as \<open>None\<close>.\<close>

definition step_prompt :: "string option \<Rightarrow> string" where
  "step_prompt current =
     ''Current assessment step: '' @
     (case current of None \<Rightarrow> ''None'' | Some t \<Rightarrow> t) @
     ''\<newline>'' @
     ''\<newline>'' @
     ''Execute this step using the available tools. '' @
     ''Be thorough and note any security-relevant findings.\<newline>'' @
     ''When done with this step, summarize what you found before moving on.''"

definition report_prompt :: string where
  "report_prompt =
     ''Based on all the findings from this assessment, generate a security report.\<newline>'' @
     ''\<newline>'' @
     ''Structure your report as:\<newline>'' @
     ''1. EXECUTIVE SUMMARY - Key risks in 2-3 sentences\<newline>'' @
     ''2. CRITICAL FINDINGS - High-impact issues requiring immediate attention\<newline>'' @
     ''3. CREDENTIAL EXPOSURE - Any credentials, keys, or secrets found\<newline>'' @
     ''4. PIVOT OPPORTUNITIES - Where an attacker could move laterally\<newline>'' @
     ''5. DATA AT RISK - Sensitive data that could be exfiltrated\<newline>'' @
     ''6. RECOMMENDATIONS - Prioritized remediation steps\<newline>'' @
     ''\<newline>'' @
     ''Be specific and actionable.''"

text \<open>
  The body of the last branch of the parsing loop, for a stripped line that is not empty:
  a leading digit drops everything up to the first full stop, a leading hyphen is dropped.
  (The loop never passes the empty string, where \<open>step[0]\<close> would raise.)
\<close>

fun strip_numbering :: "string \<Rightarrow> string" where
  "strip_numbering [] = []"
| "strip_numbering (c # cs) =
     (if isdigit c then strip (split1_last (CHR ''.'') (c # cs))
      else if startswith (c # cs) ''-'' then strip cs
      else c # cs)"

text \<open>One round of the loop over the lines, on (objective, steps, parsing_steps).\<close>

definition parse_line :: "string \<Rightarrow> string \<times> string list \<times> bool \<Rightarrow> string \<times> string list \<times> bool" where
  "parse_line line acc =
     (case acc of (obj, stps, parsing_steps) \<Rightarrow>
        if startswith line ''OBJECTIVE:'' then (strip (replace ''OBJECTIVE:'' [] line), stps, parsing_steps)
        else if startswith line ''STEPS:'' then (obj, stps, True)
        else if parsing_steps \<and> strip line \<noteq> [] then
          (let step = strip_numbering (strip line)
           in if step \<noteq> [] then (obj, stps @ [step], parsing_steps) else (obj, stps, parsing_steps))
        else (obj, stps, parsing_steps))"

fun parse_lines :: "string list \<Rightarrow> string \<times> string list \<times> bool \<Rightarrow> string \<times> string list \<times> bool" where
  "parse_lines [] acc = acc"
| "parse_lines (line # rest) acc = parse_lines rest (parse_line line acc)"

definition parse_plan :: "string \<Rightarrow> AssessmentPlan" where
  "parse_plan text =
     (case parse_lines (split_on (CHR ''\<newline>'') (strip text)) ([], [], False) of
        (obj, stps, parsing_steps) \<Rightarrow>
          new_plan (if obj \<noteq> [] then obj else ''Security assessment'') stps)"


section \<open>agent.py: the state, the nodes and the graph\<close>

text \<open>The findings of the state are \<open>state_findings\<close>, apart from those of the plan.\<close>

record AgentState =
  messages :: "message list"
  plan :: "AssessmentPlan option"
  state_findings :: "string list"
  phase :: string

text \<open>
  The chat model is the other collaborator from outside: \<open>invoke\<close> is \<open>llm.invoke\<close>,
  \<open>invoke_with_tools\<close> is \<open>llm.bind_tools(ALL_TOOLS).invoke\<close>.  Either answers with a message or
  raises.
\<close>

record chat_model =
  invoke :: "message list \<Rightarrow> error + message"
  invoke_with_tools :: "message list \<Rightarrow> error + message"

text \<open>
  The \<open>messages\<close> channel is reduced by \<open>add_messages\<close>, which keeps the messages it
  already holds and appends the ones it has not seen: a node that returns
  \<open>state["messages"] + new\<close> leaves the transcript extended by \<open>new\<close>.
\<close>

definition planner_node :: "chat_model \<Rightarrow> AgentState \<Rightarrow> error + AgentState" where
  "planner_node llm state =
     (case invoke llm
             ([SystemMessage (SYSTEM_PROMPT @ ''\<newline>\<newline>'' @ PLANNER_PROMPT)] @ messages state) of
        Inl e \<Rightarrow> Inl e
      | Inr response \<Rightarrow>
          Inr (state\<lparr>plan := Some (parse_plan (content response)),
                     phase := ''executing'',
                     messages := messages state @ [response]\<rparr>))"

definition executor_node :: "chat_model \<Rightarrow> AgentState \<Rightarrow> error + AgentState" where
  "executor_node llm state =
     (case (case plan state of
              Some p \<Rightarrow> next_step p
            | None \<Rightarrow> Inr (Some ''Perform a general security assessment'')) of
        Inl e \<Rightarrow> Inl e
      | Inr current \<Rightarrow>
          (case invoke_with_tools llm
                  ([SystemMessage SYSTEM_PROMPT] @ messages state
                     @ [HumanMessage (step_prompt current)]) of
             Inl e \<Rightarrow> Inl e
           | Inr response \<Rightarrow>
               Inr (state\<lparr>messages :=
                      messages state @ [HumanMessage (step_prompt current), response]\<rparr>)))"

definition reporter_node :: "chat_model \<Rightarrow> AgentState \<Rightarrow> error + AgentState" where
  "reporter_node llm state =
     (case invoke llm
             ([SystemMessage SYSTEM_PROMPT] @ messages state @ [HumanMessage report_prompt]) of
        Inl e \<Rightarrow> Inl e
      | Inr response \<Rightarrow>
          Inr (state\<lparr>phase := ''complete'',
                     messages := messages state @ [HumanMessage report_prompt, response]\<rparr>))"

text \<open>\<open>messages[-1]\<close> raises on an empty transcript; a plan object is always truthy.\<close>

definition should_continue :: "AgentState \<Rightarrow> error + string" where
  "should_continue state =
     (case py_index (messages state) (- 1) of
        Inl e \<Rightarrow> Inl e
      | Inr last_message \<Rightarrow>
          if tool_calls last_message \<noteq> [] then Inr ''tools''
          else if (case plan state of Some p \<Rightarrow> is_complete p | None \<Rightarrow> False) then Inr ''report''
          else if phase state = ''executing'' then Inr ''advance''
          else Inr ''executor'')"

definition advance_plan :: "AgentState \<Rightarrow> AgentState" where
  "advance_plan state =
     state\<lparr>plan := (case plan state of Some p \<Rightarrow> Some (advance p) | None \<Rightarrow> None)\<rparr>"

text \<open>
  The prebuilt tool node of the graph library: it answers each call of the last message,
  in the order requested, with one tool message holding what the registry returns for the
  call's name and arguments, and raises when the last message is not an assistant message.
  The registry (\<open>ALL_TOOLS\<close>, with the library's own answer to an unknown name) is a
  parameter.
\<close>

type_synonym tool_registry = "string \<Rightarrow> (string \<times> string) list \<Rightarrow> string"

definition tool_node :: "tool_registry \<Rightarrow> AgentState \<Rightarrow> error + AgentState" where
  "tool_node registry state =
     (case py_index (messages state) (- 1) of
        Inl e \<Rightarrow> Inl (Exception ''No message found in input'')
      | Inr (AIMessage c calls) \<Rightarrow>
          Inr (state\<lparr>messages :=
                 messages state
                   @ map (\<lambda>call. ToolMessage (registry (tc_name call) (tc_args call)) (tc_id call))
                       calls\<rparr>)
      | Inr m \<Rightarrow> Inl (Exception ''Last message is not an AIMessage''))"

text \<open>\<open>create_agent_graph\<close>: five nodes, the entry point, the edges.\<close>

datatype node = planner | executor | tools | advance_n | reporter

definition run_node :: "chat_model \<Rightarrow> tool_registry \<Rightarrow> node \<Rightarrow> AgentState \<Rightarrow> error + AgentState" where
  "run_node llm registry n state =
     (case n of
        planner \<Rightarrow> planner_node llm state
      | executor \<Rightarrow> executor_node llm state
      | tools \<Rightarrow> tool_node registry state
      | advance_n \<Rightarrow> Inr (advance_plan state)
      | reporter \<Rightarrow> reporter_node llm state)"

text \<open>The mapping handed to \<open>add_conditional_edges\<close>.\<close>

definition conditional_edges :: "(string \<times> node) list" where
  "conditional_edges =
     [(''tools'', tools), (''advance'', advance_n), (''report'', reporter), (''executor'', executor)]"

text \<open>The node after \<open>n\<close>, on the state \<open>n\<close> has produced; \<open>None\<close> is \<open>END\<close>.\<close>

definition next_node :: "node \<Rightarrow> AgentState \<Rightarrow> error + node option" where
  "next_node n state =
     (case n of
        planner \<Rightarrow> Inr (Some executor)
      | executor \<Rightarrow>
          (case should_continue state of
             Inl e \<Rightarrow> Inl e
           | Inr label \<Rightarrow>
               (case map_of conditional_edges label of
                  Some n' \<Rightarrow> Inr (Some n')
                | None \<Rightarrow> Inl (Exception label)))
      | tools \<Rightarrow> Inr (Some executor)
      | advance_n \<Rightarrow> Inr (Some executor)
      | reporter \<Rightarrow> Inr None)"

text \<open>
  A run of the compiled graph from node \<open>n\<close>: the nodes visited, in order, and how the run
  ended.  The source bounds the loop nowhere, so the run takes fuel, one unit a node, and
  \<open>None\<close> says that the fuel ran out before the graph reached \<open>END\<close> or raised.
\<close>

datatype outcome = Finished AgentState | Raised error

fun run_graph :: "nat \<Rightarrow> chat_model \<Rightarrow> tool_registry \<Rightarrow> node \<Rightarrow> AgentState \<Rightarrow> (node list \<times> outcome) option" where
  "run_graph 0 llm registry n state = None"
| "run_graph (Suc k) llm registry n state =
     (case run_node llm registry n state of
        Inl e \<Rightarrow> Some ([n], Raised e)
      | Inr state' \<Rightarrow>
          (case next_node n state' of
             Inl e \<Rightarrow> Some ([n], Raised e)
           | Inr None \<Rightarrow> Some ([n], Finished state')
           | Inr (Some n') \<Rightarrow>
               (case run_graph k llm registry n' state' of
                  None \<Rightarrow> None
                | Some (visited, result) \<Rightarrow> Some (n # visited, result))))"

text \<open>cli.py, \<open>run_assessment\<close>: the initial state, and the run from the entry point.\<close>

definition initial_state :: "string \<Rightarrow> AgentState" where
  "initial_state obj =
     \<lparr>messages = [HumanMessage obj], plan = None, state_findings = [], phase = ''planning''\<rparr>"

definition run_assessment :: "nat \<Rightarrow> chat_model \<Rightarrow> tool_registry \<Rightarrow> string \<Rightarrow> (node list \<times> outcome) option" where
  "run_assessment fuel llm registry obj = run_graph fuel llm registry planner (initial_state obj)"


section \<open>The end-to-end scenario: a scripted chat model and one tool\<close>

text \<open>
  The host of the scenario: every command completes with one line on standard output.
\<close>

definition scenario_subprocess :: subprocess where
  "scenario_subprocess command shell timeout =
     Inr \<lparr>cp_stdout = ''id_ed25519\<newline>'', cp_stderr = [], cp_returncode = 0\<rparr>"

definition scenario_registry :: tool_registry where
  "scenario_registry name args =
     (if name = ''find_ssh_keys''
      then (case find_ssh_keys scenario_subprocess of Inr t \<Rightarrow> t | Inl e \<Rightarrow> str_error e)
      else ''Error: '' @ name @ '' is not a valid tool'')"

fun is_ai :: "message \<Rightarrow> bool" where
  "is_ai (AIMessage c tcs) = True"
| "is_ai m = False"

fun is_tool_result :: "message \<Rightarrow> bool" where
  "is_tool_result (ToolMessage c i) = True"
| "is_tool_result m = False"

definition plan_response :: message where
  "plan_response = AIMessage ''OBJECTIVE: list SSH keys\<newline>STEPS:\<newline>1. find_ssh_keys'' []"

definition tool_request :: message where
  "tool_request = AIMessage [] [\<lparr>tc_name = ''find_ssh_keys'', tc_args = [], tc_id = ''call_1''\<rparr>]"

definition step_summary :: message where
  "step_summary = AIMessage ''One private key is present.'' []"

definition final_report :: message where
  "final_report = AIMessage ''EXECUTIVE SUMMARY: one SSH key is exposed.'' []"

text \<open>
  The mocked model.  Without tools it plans one step while the transcript holds no answer
  of its own yet, and reports afterwards.  With tools it requests \<open>find_ssh_keys\<close> with no
  arguments on its first turn (no tool result in the transcript yet) and answers in plain
  text, with no tool call, on every later turn.
\<close>

definition scenario_llm :: chat_model where
  "scenario_llm =
     \<lparr>invoke = (\<lambda>msgs. if list_ex is_ai msgs then Inr final_report else Inr plan_response),
      invoke_with_tools =
        (\<lambda>msgs. if list_ex is_tool_result msgs then Inr step_summary else Inr tool_request)\<rparr>"

definition scenario_run :: "nat \<Rightarrow> (node list \<times> outcome) option" where
  "scenario_run fuel = run_assessment fuel scenario_llm scenario_registry ''list SSH keys''"

text \<open>The state the scenario is found to end in.\<close>

definition scenario_final :: AgentState where
  "scenario_final =
     \<lparr>messages =
        [HumanMessage ''list SSH keys'',
         plan_response,
         HumanMessage (step_prompt (Some ''find_ssh_keys'')), tool_request,
         ToolMessage ''id_ed25519\<newline>'' ''call_1'',
         HumanMessage (step_prompt (Some ''find_ssh_keys'')), step_summary,
         HumanMessage (step_prompt None), step_summary,
         HumanMessage report_prompt, final_report],
      plan = Some \<lparr>objective = ''list SSH keys'', steps = [''find_ssh_keys''],
                    current_step = 1, findings = []\<rparr>,
      state_findings = [],
      phase = ''complete''\<rparr>"



section \<open>Properties of the plan\<close>

lemma current_step_advance_funpow:
  "current_step ((advance ^^ n) p) = current_step p + int n"
  by (induction n) (simp_all add: advance_def)

lemma steps_advance_funpow: "steps ((advance ^^ n) p) = steps p"
  by (induction n) (simp_all add: advance_def)

lemma objective_advance_funpow: "objective ((advance ^^ n) p) = objective p"
  by (induction n) (simp_all add: advance_def)

text \<open>
  C9. Completion is monotone: a plan that is complete stays complete after any number of
  further calls of \<open>advance\<close>, although each call moves the cursor further past the
  number of steps.
\<close>

theorem is_complete_monotone:
  "is_complete p \<Longrightarrow>
     is_complete ((advance ^^ n) p) \<and>
     current_step ((advance ^^ n) p) = current_step p + int n \<and>
     (0 < n \<longrightarrow> current_step ((advance ^^ n) p) > int (length (steps ((advance ^^ n) p))))"
  by (simp add: is_complete_def current_step_advance_funpow steps_advance_funpow)

theorem is_complete_monotone_witness:
  "is_complete (new_plan ''o'' []) \<and>
   is_complete ((advance ^^ 3) (new_plan ''o'' [])) \<and>
   current_step ((advance ^^ 3) (new_plan ''o'' [])) = 3 \<and>
   int (length (steps ((advance ^^ 3) (new_plan ''o'' [])))) = 0"
proof -
  have h: "is_complete (new_plan ''o'' [])"
    by (simp add: is_complete_def new_plan_def)
  from is_complete_monotone [OF h, of 3] h show ?thesis
    by (simp add: new_plan_def steps_advance_funpow)
qed

section \<open>The plan along a run of the graph\<close>

lemma advance_plan_map: "plan (advance_plan st) = map_option advance (plan st)"
  by (simp add: advance_plan_def split: option.splits)

lemma run_node_plan:
  assumes "n \<noteq> planner" and "run_node llm registry n st = Inr st'"
  shows "plan st' = (if n = advance_n then map_option advance (plan st) else plan st)"
proof (cases n)
  case planner
  with assms show ?thesis by simp
next
  case executor
  with assms show ?thesis
    by (auto simp: run_node_def executor_node_def split: sum.splits option.splits)
next
  case tools
  with assms show ?thesis
    by (auto simp: run_node_def tool_node_def split: sum.splits message.splits)
next
  case advance_n
  with assms show ?thesis
    by (auto simp: run_node_def advance_plan_map)
next
  case reporter
  with assms show ?thesis
    by (auto simp: run_node_def reporter_node_def split: sum.splits)
qed

lemma next_node_not_planner: "next_node n st = Inr (Some n') \<Longrightarrow> n' \<noteq> planner"
  by (cases n) (auto simp: next_node_def conditional_edges_def should_continue_def
                     split: sum.splits option.splits if_splits)

lemma next_node_advance:
  "next_node n st = Inr (Some advance_n) \<Longrightarrow>
     n = executor \<and> (\<forall>p. plan st = Some p \<longrightarrow> \<not> is_complete p)"
  by (cases n) (auto simp: next_node_def conditional_edges_def should_continue_def
                     split: sum.splits option.splits if_splits)

lemma map_option_funpow_Suc:
  "map_option (f ^^ n) (map_option f x) = map_option (f ^^ Suc n) x"
  by (cases x) (simp_all add: funpow_swap1)

lemma run_graph_plan:
  "n \<noteq> planner \<Longrightarrow> run_graph k llm registry n st = Some (visited, Finished st') \<Longrightarrow>
     plan st' = map_option (advance ^^ count_list visited advance_n) (plan st) \<and>
     planner \<notin> set visited"
proof (induction k arbitrary: n st visited)
  case 0
  then show ?case by simp
next
  case (Suc k)
  from Suc.prems(2) obtain st1 where st1: "run_node llm registry n st = Inr st1"
    by (auto split: sum.splits)
  have p1: "plan st1 = (if n = advance_n then map_option advance (plan st) else plan st)"
    using run_node_plan [OF Suc.prems(1) st1] .
  from Suc.prems(2) st1 obtain nn where nn: "next_node n st1 = Inr nn"
    by (auto split: sum.splits)
  show ?case
  proof (cases nn)
    case None
    with Suc.prems st1 nn p1 show ?thesis
      by (auto simp: option.map_id0 split: if_splits)
  next
    case (Some n')
    with Suc.prems(2) st1 nn obtain vis' where
      rec: "run_graph k llm registry n' st1 = Some (vis', Finished st')" and
      vis: "visited = n # vis'"
      by (auto split: option.splits)
    have "n' \<noteq> planner" using next_node_not_planner nn Some by blast
    from Suc.IH [OF this rec]
    have ih: "plan st' = map_option (advance ^^ count_list vis' advance_n) (plan st1)"
      and np: "planner \<notin> set vis'" by simp_all
    show ?thesis
      using ih np p1 vis Suc.prems(1)
      by (simp add: map_option_funpow_Suc del: funpow.simps)
  qed
qed

lemma run_node_bounds:
  assumes "\<forall>p. plan st = Some p \<longrightarrow> plan_in_bounds p"
    and "n = advance_n \<longrightarrow> (\<forall>p. plan st = Some p \<longrightarrow> \<not> is_complete p)"
    and "run_node llm registry n st = Inr st'"
  shows "\<forall>p. plan st' = Some p \<longrightarrow> plan_in_bounds p"
proof (cases "n = planner")
  case True
  with assms(3) show ?thesis
    by (auto simp: run_node_def planner_node_def parse_plan_def new_plan_def plan_in_bounds_def
             split: sum.splits prod.splits)
next
  case False
  from run_node_plan [OF False assms(3)] assms(1,2) show ?thesis
    by (auto simp: plan_in_bounds_def is_complete_def advance_def split: if_splits)
qed

lemma run_graph_bounds:
  "\<forall>p. plan st = Some p \<longrightarrow> plan_in_bounds p \<Longrightarrow>
   n = advance_n \<longrightarrow> (\<forall>p. plan st = Some p \<longrightarrow> \<not> is_complete p) \<Longrightarrow>
   run_graph k llm registry n st = Some (visited, Finished st') \<Longrightarrow>
   \<forall>p. plan st' = Some p \<longrightarrow> plan_in_bounds p"
proof (induction k arbitrary: n st visited)
  case 0
  then show ?case by simp
next
  case (Suc k)
  from Suc.prems(3) obtain st1 where st1: "run_node llm registry n st = Inr st1"
    by (auto split: sum.splits)
  have b1: "\<forall>p. plan st1 = Some p \<longrightarrow> plan_in_bounds p"
    using run_node_bounds [OF Suc.prems(1,2) st1] .
  from Suc.prems(3) st1 obtain nn where nn: "next_node n st1 = Inr nn"
    by (auto split: sum.splits)
  show ?case
  proof (cases nn)
    case None
    with Suc.prems(3) st1 nn b1 show ?thesis by auto
  next
    case (Some n')
    with Suc.prems(3) st1 nn obtain vis' where
      rec: "run_graph k llm registry n' st1 = Some (vis', Finished st')"
      by (auto split: option.splits)
    have "n' = advance_n \<longrightarrow> (\<forall>p. plan st1 = Some p \<longrightarrow> \<not> is_complete p)"
      using next_node_advance nn Some by blast
    from Suc.IH [OF b1 this rec] show ?thesis .
  qed
qed


lemma scenario_run_7:
  "scenario_run 7 =
     Some ([planner, executor, tools, executor, advance_n, executor, reporter],
           Finished scenario_final)"
  by code_simp

lemma run_assessment_Finished:
  assumes "run_assessment fuel llm registry obj = Some (visited, Finished st')"
  obtains k response vis' where
    "fuel = Suc k"
    "invoke llm ([SystemMessage (SYSTEM_PROMPT @ ''\<newline>\<newline>'' @ PLANNER_PROMPT)]
                   @ [HumanMessage obj]) = Inr response"
    "visited = planner # vis'"
    "run_graph k llm registry executor
       ((initial_state obj)\<lparr>plan := Some (parse_plan (content response)),
                              phase := ''executing'',
                              messages := [HumanMessage obj, response]\<rparr>)
       = Some (vis', Finished st')"
proof -
  from assms obtain k where k: "fuel = Suc k"
    by (cases fuel) (simp_all add: run_assessment_def)
  from assms k obtain response where
    r: "invoke llm ([SystemMessage (SYSTEM_PROMPT @ ''\<newline>\<newline>'' @ PLANNER_PROMPT)]
                   @ [HumanMessage obj]) = Inr response"
    by (auto simp: run_assessment_def run_node_def planner_node_def initial_state_def
             split: sum.splits)
  from assms k r obtain vis' where
    "visited = planner # vis'"
    "run_graph k llm registry executor
       ((initial_state obj)\<lparr>plan := Some (parse_plan (content response)),
                              phase := ''executing'',
                              messages := [HumanMessage obj, response]\<rparr>)
       = Some (vis', Finished st')"
    by (auto simp: run_assessment_def run_node_def planner_node_def initial_state_def
                   next_node_def
             split: sum.splits option.splits)
  with k r that show thesis by blast
qed

lemma run_assessment_plan:
  assumes "run_assessment fuel llm registry obj = Some (visited, Finished st')"
  shows "\<exists>response.
           invoke llm ([SystemMessage (SYSTEM_PROMPT @ ''\<newline>\<newline>'' @ PLANNER_PROMPT)]
                         @ [HumanMessage obj]) = Inr response \<and>
           plan st' = Some ((advance ^^ count_list visited advance_n)
                              (parse_plan (content response))) \<and>
           count_list visited planner = 1"
proof -
  from assms obtain k response vis' where
    r: "invoke llm ([SystemMessage (SYSTEM_PROMPT @ ''\<newline>\<newline>'' @ PLANNER_PROMPT)]
                   @ [HumanMessage obj]) = Inr response" and
    v: "visited = planner # vis'" and
    g: "run_graph k llm registry executor
       ((initial_state obj)\<lparr>plan := Some (parse_plan (content response)),
                              phase := ''executing'',
                              messages := [HumanMessage obj, response]\<rparr>)
       = Some (vis', Finished st')"
    by (rule run_assessment_Finished)
  have "executor \<noteq> planner" by simp
  from run_graph_plan [OF this g] v r show ?thesis
    by (auto simp: count_list_0_iff)
qed

lemma run_assessment_bounds:
  assumes "run_assessment fuel llm registry obj = Some (visited, Finished st')"
  shows "\<exists>q. plan st' = Some q \<and> plan_in_bounds q"
proof -
  from run_assessment_plan [OF assms] obtain q where q: "plan st' = Some q" by blast
  have "\<forall>p. plan (initial_state obj) = Some p \<longrightarrow> plan_in_bounds p"
    by (simp add: initial_state_def)
  moreover have "planner = advance_n \<longrightarrow>
      (\<forall>p. plan (initial_state obj) = Some p \<longrightarrow> \<not> is_complete p)" by simp
  ultimately have "\<forall>p. plan st' = Some p \<longrightarrow> plan_in_bounds p"
    using run_graph_bounds assms unfolding run_assessment_def by blast
  with q show ?thesis by blast
qed

section \<open>C1: the bounds of the cursor\<close>

text \<open>
  C1 (as amended). The cursor never becomes negative under \<open>advance\<close>, and \<open>advance\<close> keeps
  \<open>0 \<le> cursor \<le> len(steps)\<close> when it is applied to a plan that is not complete.  Applied to
  a complete plan it is no no-op: it adds one all the same and leaves the cursor above
  \<open>len(steps)\<close>.  The graph sends a state to the advance node only while its plan is not
  complete, so the plan at the end of every run of the graph from the initial state has
  \<open>0 \<le> cursor \<le> len(steps)\<close>.
\<close>

theorem cursor_bounds:
  "(0 \<le> current_step p \<longrightarrow> 0 \<le> current_step ((advance ^^ n) p)) \<and>
   (plan_in_bounds p \<and> \<not> is_complete p \<longrightarrow> plan_in_bounds (advance p)) \<and>
   (is_complete p \<longrightarrow>
      current_step (advance p) = current_step p + 1 \<and>
      int (length (steps (advance p))) < current_step (advance p)) \<and>
   (run_assessment fuel llm registry obj = Some (visited, Finished st') \<longrightarrow>
      (\<exists>q. plan st' = Some q \<and> plan_in_bounds q))"
proof -
  have "0 \<le> current_step p \<longrightarrow> 0 \<le> current_step ((advance ^^ n) p)"
    by (simp add: current_step_advance_funpow)
  moreover have "plan_in_bounds p \<and> \<not> is_complete p \<longrightarrow> plan_in_bounds (advance p)"
    by (simp add: plan_in_bounds_def is_complete_def advance_def)
  moreover have "is_complete p \<longrightarrow>
      current_step (advance p) = current_step p + 1 \<and>
      int (length (steps (advance p))) < current_step (advance p)"
    by (simp add: is_complete_def advance_def)
  moreover have "run_assessment fuel llm registry obj = Some (visited, Finished st') \<longrightarrow>
      (\<exists>q. plan st' = Some q \<and> plan_in_bounds q)"
    using run_assessment_bounds by blast
  ultimately show ?thesis by blast
qed

text \<open>
  The theorem at a plan of one step, at a plan of no steps, and at the run of the scenario.
\<close>

theorem cursor_bounds_witness:
  "0 \<le> current_step (new_plan ''o'' [''a'']) \<and>
   0 \<le> current_step ((advance ^^ 2) (new_plan ''o'' [''a''])) \<and>
   plan_in_bounds (new_plan ''o'' [''a'']) \<and> \<not> is_complete (new_plan ''o'' [''a'']) \<and>
   plan_in_bounds (advance (new_plan ''o'' [''a''])) \<and>
   is_complete (new_plan ''o'' []) \<and>
   int (length (steps (advance (new_plan ''o'' [])))) < current_step (advance (new_plan ''o'' [])) \<and>
   run_assessment 7 scenario_llm scenario_registry ''list SSH keys''
     = Some ([planner, executor, tools, executor, advance_n, executor, reporter],
             Finished scenario_final) \<and>
   (\<exists>q. plan scenario_final = Some q \<and> plan_in_bounds q)"
proof -
  have a: "0 \<le> current_step (new_plan ''o'' [''a''])"
    by (simp add: new_plan_def)
  have b: "plan_in_bounds (new_plan ''o'' [''a'']) \<and> \<not> is_complete (new_plan ''o'' [''a''])"
    by (simp add: new_plan_def plan_in_bounds_def is_complete_def)
  have c: "is_complete (new_plan ''o'' [])"
    by (simp add: new_plan_def is_complete_def)
  have d: "run_assessment 7 scenario_llm scenario_registry ''list SSH keys''
     = Some ([planner, executor, tools, executor, advance_n, executor, reporter],
             Finished scenario_final)"
    using scenario_run_7 by (simp add: scenario_run_def)
  from cursor_bounds [of "new_plan ''o'' [''a'']" 2 7 scenario_llm scenario_registry
        "''list SSH keys''" "[planner, executor, tools, executor, advance_n, executor, reporter]"
        scenario_final]
       cursor_bounds [of "new_plan ''o'' []" 0 0 scenario_llm scenario_registry "[]" "[]"
        scenario_final]
       a b c d
  show ?thesis by blast
qed

text \<open>
  The invariant as first stated does not hold of \<open>advance\<close> alone: on the complete plan with
  no steps, \<open>advance\<close> changes the plan and leaves the cursor at 1, above the 0 steps.
\<close>

theorem advance_past_end_counterexample:
  "is_complete (new_plan ''o'' []) \<and>
   advance (new_plan ''o'' []) \<noteq> new_plan ''o'' [] \<and>
   current_step (advance (new_plan ''o'' [])) = 1 \<and>
   int (length (steps (advance (new_plan ''o'' [])))) = 0 \<and>
   \<not> plan_in_bounds (advance (new_plan ''o'' []))"
  by (simp add: is_complete_def advance_def new_plan_def plan_in_bounds_def)

section \<open>C7: when a plan is complete\<close>

text \<open>
  C7 (as amended). \<open>is_complete()\<close> is true if and only if \<open>cursor \<ge> len(steps)\<close>, which is
  \<open>cursor == len(steps)\<close> for every plan whose cursor has not passed the end; it is true for
  every plan the constructor builds with zero steps, and for every plan of zero steps whose
  cursor is not negative.
\<close>

theorem is_complete_iff_reached:
  "(is_complete p \<longleftrightarrow> int (length (steps p)) \<le> current_step p) \<and>
   (current_step p \<le> int (length (steps p)) \<longrightarrow>
      (is_complete p \<longleftrightarrow> current_step p = int (length (steps p)))) \<and>
   is_complete (new_plan obj []) \<and>
   (steps p = [] \<and> 0 \<le> current_step p \<longrightarrow> is_complete p)"
  by (auto simp: is_complete_def new_plan_def)

text \<open>The theorem at a fresh plan of one step and at a fresh plan of no steps.\<close>

theorem is_complete_iff_reached_witness:
  "current_step (new_plan ''o'' [''a'']) \<le> int (length (steps (new_plan ''o'' [''a'']))) \<and>
   \<not> is_complete (new_plan ''o'' [''a'']) \<and>
   current_step (new_plan ''o'' [''a'']) \<noteq> int (length (steps (new_plan ''o'' [''a'']))) \<and>
   steps (new_plan ''o'' []) = [] \<and> 0 \<le> current_step (new_plan ''o'' []) \<and>
   is_complete (new_plan ''o'' [])"
  using is_complete_iff_reached [of "new_plan ''o'' [''a'']"]
        is_complete_iff_reached [of "new_plan ''o'' []"]
  by (simp add: new_plan_def)

text \<open>
  The equivalence with \<open>cursor == len(steps)\<close> fails past the end: the plan of no steps,
  advanced once, is complete with its cursor at 1.
\<close>

theorem is_complete_beyond_end_counterexample:
  "is_complete (advance (new_plan ''o'' [])) \<and>
   current_step (advance (new_plan ''o'' [])) \<noteq> int (length (steps (advance (new_plan ''o'' []))))"
  by (simp add: is_complete_def advance_def new_plan_def)

section \<open>C8: what changes a plan\<close>

text \<open>
  C8. \<open>advance\<close> adds one to the cursor and leaves the objective, the steps and the findings
  of the plan as they are.  Of the nodes that run after the planner, only the advance node
  touches the plan, and it does so by \<open>advance\<close>.  A run visits the planner once, at its
  start, so the plan at the end of a run is the plan the planner parsed from the model's
  answer, advanced once for every visit of the advance node: its objective and its steps
  are those the planner gave it.
\<close>

theorem plan_frame:
  "objective (advance p) = objective p \<and>
   steps (advance p) = steps p \<and>
   findings (advance p) = findings p \<and>
   current_step (advance p) = current_step p + 1 \<and>
   (n \<noteq> planner \<and> run_node llm registry n st = Inr st1 \<longrightarrow>
      plan st1 = (if n = advance_n then map_option advance (plan st) else plan st)) \<and>
   (run_assessment fuel llm registry obj = Some (visited, Finished st') \<longrightarrow>
      (\<exists>response.
          invoke llm ([SystemMessage (SYSTEM_PROMPT @ ''\<newline>\<newline>'' @ PLANNER_PROMPT)]
                        @ [HumanMessage obj]) = Inr response \<and>
          plan st' = Some ((advance ^^ count_list visited advance_n)
                             (parse_plan (content response))) \<and>
          map_option objective (plan st') = Some (objective (parse_plan (content response))) \<and>
          map_option steps (plan st') = Some (steps (parse_plan (content response))) \<and>
          count_list visited planner = 1))"
proof -
  have "n \<noteq> planner \<and> run_node llm registry n st = Inr st1 \<longrightarrow>
      plan st1 = (if n = advance_n then map_option advance (plan st) else plan st)"
    using run_node_plan by blast
  moreover have "run_assessment fuel llm registry obj = Some (visited, Finished st') \<longrightarrow>
      (\<exists>response.
          invoke llm ([SystemMessage (SYSTEM_PROMPT @ ''\<newline>\<newline>'' @ PLANNER_PROMPT)]
                        @ [HumanMessage obj]) = Inr response \<and>
          plan st' = Some ((advance ^^ count_list visited advance_n)
                             (parse_plan (content response))) \<and>
          map_option objective (plan st') = Some (objective (parse_plan (content response))) \<and>
          map_option steps (plan st') = Some (steps (parse_plan (content response))) \<and>
          count_list visited planner = 1)"
  proof
    assume "run_assessment fuel llm registry obj = Some (visited, Finished st')"
    from run_assessment_plan [OF this] obtain response where
      r: "invoke llm ([SystemMessage (SYSTEM_PROMPT @ ''\<newline>\<newline>'' @ PLANNER_PROMPT)]
                        @ [HumanMessage obj]) = Inr response" and
      p: "plan st' = Some ((advance ^^ count_list visited advance_n)
                             (parse_plan (content response)))" and
      once: "count_list visited planner = 1"
      by blast
    from p have "map_option objective (plan st') = Some (objective (parse_plan (content response)))"
      and "map_option steps (plan st') = Some (steps (parse_plan (content response)))"
      by (simp_all add: objective_advance_funpow steps_advance_funpow)
    with r p once show "\<exists>response.
          invoke llm ([SystemMessage (SYSTEM_PROMPT @ ''\<newline>\<newline>'' @ PLANNER_PROMPT)]
                        @ [HumanMessage obj]) = Inr response \<and>
          plan st' = Some ((advance ^^ count_list visited advance_n)
                             (parse_plan (content response))) \<and>
          map_option objective (plan st') = Some (objective (parse_plan (content response))) \<and>
          map_option steps (plan st') = Some (steps (parse_plan (content response))) \<and>
          count_list visited planner = 1"
      by blast
  qed
  ultimately show ?thesis by (simp add: advance_def)
qed

text \<open>
  The theorem at the advance node, on the initial state given a fresh plan of one step, and
  at the run of the scenario.
\<close>

theorem plan_frame_witness:
  "advance_n \<noteq> planner \<and>
   run_node scenario_llm scenario_registry advance_n
       ((initial_state ''o'')\<lparr>plan := Some (new_plan ''o'' [''a''])\<rparr>)
     = Inr ((initial_state ''o'')\<lparr>plan := Some (advance (new_plan ''o'' [''a'']))\<rparr>) \<and>
   run_assessment 7 scenario_llm scenario_registry ''list SSH keys''
     = Some ([planner, executor, tools, executor, advance_n, executor, reporter],
             Finished scenario_final) \<and>
   map_option objective (plan scenario_final) = Some ''list SSH keys'' \<and>
   map_option steps (plan scenario_final) = Some [''find_ssh_keys''] \<and>
   map_option current_step (plan scenario_final) = Some 1"
proof -
  have a: "run_node scenario_llm scenario_registry advance_n
       ((initial_state ''o'')\<lparr>plan := Some (new_plan ''o'' [''a''])\<rparr>)
     = Inr ((initial_state ''o'')\<lparr>plan := Some (advance (new_plan ''o'' [''a'']))\<rparr>)"
    by (simp add: run_node_def advance_plan_def)
  have d: "run_assessment 7 scenario_llm scenario_registry ''list SSH keys''
     = Some ([planner, executor, tools, executor, advance_n, executor, reporter],
             Finished scenario_final)"
    using scenario_run_7 by (simp add: scenario_run_def)
  have e: "map_option objective (plan scenario_final) = Some ''list SSH keys'' \<and>
   map_option steps (plan scenario_final) = Some [''find_ssh_keys''] \<and>
   map_option current_step (plan scenario_final) = Some 1"
    by (simp add: scenario_final_def)
  from plan_frame [of "new_plan ''o'' [''a'']" advance_n scenario_llm scenario_registry
         "(initial_state ''o'')\<lparr>plan := Some (new_plan ''o'' [''a''])\<rparr>"
         "(initial_state ''o'')\<lparr>plan := Some (advance (new_plan ''o'' [''a'']))\<rparr>"
         7 "''list SSH keys''"
         "[planner, executor, tools, executor, advance_n, executor, reporter]" scenario_final]
       a d e
  show ?thesis by simp
qed

lemma sublist_mid: "sublist b (a @ b @ c)"
  unfolding sublist_def by blast

section \<open>C4: the command runner\<close>

text \<open>
  C4. \<open>run_command\<close> never raises: whatever \<open>subprocess.run\<close> does, a result comes back.
  When the run times out, the result has an empty standard output, the exit code -1 and
  the message \<open>Command timed out after <timeout>s\<close>, which contains the timeout that was
  configured; any other exception gives a result of the same shape, with the text of the
  exception as the message; a command that completes gives its exit code and its two
  streams as they were captured.
\<close>

theorem run_command_total:
  "(\<exists>r. run_command subprocess_run command timeout shell = Inr r) \<and>
   (subprocess_run command shell timeout = Inl (TimeoutExpired m) \<longrightarrow>
      run_command subprocess_run command timeout shell
        = Inr \<lparr>stdout = [], stderr = ''Command timed out after '' @ str_int timeout @ ''s'',
               returncode = - 1\<rparr> \<and>
      sublist (str_int timeout)
        (''Command timed out after '' @ str_int timeout @ ''s'')) \<and>
   (subprocess_run command shell timeout = Inl (IndexError m) \<or>
    subprocess_run command shell timeout = Inl (Exception m) \<longrightarrow>
      run_command subprocess_run command timeout shell
        = Inr \<lparr>stdout = [], stderr = m, returncode = - 1\<rparr>) \<and>
   (subprocess_run command shell timeout = Inr result \<longrightarrow>
      run_command subprocess_run command timeout shell
        = Inr \<lparr>stdout = cp_stdout result, stderr = cp_stderr result,
               returncode = cp_returncode result\<rparr>)"
proof -
  have "\<exists>r. run_command subprocess_run command timeout shell = Inr r"
    by (simp add: run_command_def split: sum.splits error.splits)
  moreover have "sublist (str_int timeout) (''Command timed out after '' @ str_int timeout @ ''s'')"
    by (rule sublist_mid)
  ultimately show ?thesis
    by (auto simp: run_command_def)
qed

text \<open>The theorem at a host that times out, one that raises, and one that completes.\<close>

theorem run_command_total_witness:
  "run_command (\<lambda>c s t. Inl (TimeoutExpired ''timed out'')) ''sleep 60'' 5 True
     = Inr \<lparr>stdout = [], stderr = ''Command timed out after 5s'', returncode = - 1\<rparr> \<and>
   sublist ''5'' ''Command timed out after 5s'' \<and>
   run_command (\<lambda>c s t. Inl (Exception ''Permission denied'')) ''ls'' 30 True
     = Inr \<lparr>stdout = [], stderr = ''Permission denied'', returncode = - 1\<rparr> \<and>
   run_command (\<lambda>c s t. Inr \<lparr>cp_stdout = ''a'', cp_stderr = ''b'', cp_returncode = 3\<rparr>) ''ls'' 30 True
     = Inr \<lparr>stdout = ''a'', stderr = ''b'', returncode = 3\<rparr>"
proof -
  have t: "str_int 5 = ''5''" by code_simp
  from run_command_total [of "\<lambda>c s t. Inl (TimeoutExpired ''timed out'')" "''sleep 60''" 5 True
         "''timed out''"]
       run_command_total [of "\<lambda>c s t. Inl (Exception ''Permission denied'')" "''ls''" 30 True
         "''Permission denied''"]
       run_command_total [of "\<lambda>c s t. Inr \<lparr>cp_stdout = ''a'', cp_stderr = ''b'', cp_returncode = 3\<rparr>"
         "''ls''" 30 True _
         "\<lparr>cp_stdout = ''a'', cp_stderr = ''b'', cp_returncode = 3\<rparr>"]
  show ?thesis by (simp add: t)
qed

section \<open>C6 and C10: formatting a command result\<close>

text \<open>
  C6 (as amended). With the default options, a result with an empty standard output, a
  standard error that is not empty and the exit code 0 is formatted as exactly the text of
  its standard error; with an exit code other than 0 that text is followed by a line break
  and \<open>Return code: <code>\<close>.  For every result with an exit code other than 0 the
  formatted text contains \<open>Return code: <code>\<close>.
\<close>

theorem format_stderr_fallback:
  "(stdout r = [] \<and> stderr r \<noteq> [] \<and> returncode r = 0 \<longrightarrow>
      format_command_output r True True = stderr r) \<and>
   (stdout r = [] \<and> stderr r \<noteq> [] \<and> returncode r \<noteq> 0 \<longrightarrow>
      format_command_output r True True
        = stderr r @ ''\<newline>Return code: '' @ str_int (returncode r)) \<and>
   (returncode r \<noteq> 0 \<longrightarrow>
      sublist (''Return code: '' @ str_int (returncode r)) (format_command_output r True True))"
proof -
  have tail: "sublist (''Return code: '' @ str_int (returncode r))
                (a @ ''\<newline>Return code: '' @ str_int (returncode r))" for a
    using sublist_mid [of "''Return code: '' @ str_int (returncode r)" "a @ ''\<newline>''" "[]"]
    by simp
  show ?thesis
    using tail by (simp add: format_command_output_def success_def Let_def)
qed

lemma str_int_2: "str_int 2 = ''2''"
  by code_simp

text \<open>The theorem at a command that warns and succeeds, and at one that fails.\<close>

theorem format_stderr_fallback_witness:
  "format_command_output \<lparr>stdout = [], stderr = ''warn'', returncode = 0\<rparr> True True = ''warn'' \<and>
   format_command_output \<lparr>stdout = [], stderr = ''No such file'', returncode = 2\<rparr> True True
     = ''No such file\<newline>Return code: 2'' \<and>
   sublist ''Return code: 2''
     (format_command_output \<lparr>stdout = [], stderr = ''No such file'', returncode = 2\<rparr> True True)"
proof -
  have quiet: "format_command_output \<lparr>stdout = [], stderr = ''warn'', returncode = 0\<rparr> True True
                 = ''warn''"
    using format_stderr_fallback [of "\<lparr>stdout = [], stderr = ''warn'', returncode = 0\<rparr>"]
    by simp
  have failed: "format_command_output \<lparr>stdout = [], stderr = ''No such file'', returncode = 2\<rparr>
                  True True = ''No such file\<newline>Return code: 2''"
    using format_stderr_fallback [of "\<lparr>stdout = [], stderr = ''No such file'', returncode = 2\<rparr>",
            THEN conjunct2, THEN conjunct1]
    by (simp add: str_int_2)
  have shown: "sublist ''Return code: 2''
     (format_command_output \<lparr>stdout = [], stderr = ''No such file'', returncode = 2\<rparr> True True)"
    using format_stderr_fallback [of "\<lparr>stdout = [], stderr = ''No such file'', returncode = 2\<rparr>",
            THEN conjunct2, THEN conjunct2]
    by (simp add: str_int_2)
  from quiet failed shown show ?thesis by blast
qed

text \<open>
  The standard error alone is not what comes back when the command failed: the return code
  follows it.
\<close>

theorem format_stderr_only_counterexample:
  "stdout \<lparr>stdout = [], stderr = ''err'', returncode = 1\<rparr> = [] \<and>
   stderr \<lparr>stdout = [], stderr = ''err'', returncode = 1\<rparr> \<noteq> [] \<and>
   format_command_output \<lparr>stdout = [], stderr = ''err'', returncode = 1\<rparr> True True
     = ''err\<newline>Return code: 1'' \<and>
   format_command_output \<lparr>stdout = [], stderr = ''err'', returncode = 1\<rparr> True True
     \<noteq> stderr \<lparr>stdout = [], stderr = ''err'', returncode = 1\<rparr>"
  by code_simp

text \<open>
  C10. \<open>format_command_output\<close> never returns the empty string, whatever the options; a
  result with both streams empty and the exit code 0 is formatted as \<open>(no output)\<close>.
\<close>

theorem format_never_empty:
  "format_command_output r include_stderr include_returncode \<noteq> [] \<and>
   (stdout r = [] \<and> stderr r = [] \<and> returncode r = 0 \<longrightarrow>
      format_command_output r include_stderr include_returncode = ''(no output)'')"
  by (simp add: format_command_output_def success_def Let_def)

text \<open>The theorem at the empty result, with the options on and off.\<close>

theorem format_never_empty_witness:
  "format_command_output \<lparr>stdout = [], stderr = [], returncode = 0\<rparr> True True = ''(no output)'' \<and>
   format_command_output \<lparr>stdout = [], stderr = [], returncode = 0\<rparr> False False = ''(no output)'' \<and>
   format_command_output \<lparr>stdout = [], stderr = [], returncode = 0\<rparr> True True \<noteq> []"
  using format_never_empty [of "\<lparr>stdout = [], stderr = [], returncode = 0\<rparr>" True True]
        format_never_empty [of "\<lparr>stdout = [], stderr = [], returncode = 0\<rparr>" False False]
  by simp

section \<open>C3: the dispatch after the executor\<close>

lemma py_index_last: "xs \<noteq> [] \<Longrightarrow> py_index xs (- 1) = Inr (last xs)"
proof -
  assume ne: "xs \<noteq> []"
  then have len: "1 \<le> int (length xs)"
    by (cases xs) simp_all
  have "nat (int (length xs) + - 1) = length xs - 1"
    by simp
  with ne len show ?thesis
    by (simp add: py_index_def last_conv_nth)
qed

text \<open>
  C3 (as amended). For every state whose transcript is not empty, \<open>should_continue\<close> decides
  in this order: the tools node when the last message carries a tool call; else the
  reporter when the state holds a plan and the plan is complete; else the advance node when
  the phase is \<open>executing\<close>; else the executor again.  The advance node applies \<open>advance\<close> to
  the plan when the state holds one (the cursor goes up by one) and leaves a state without
  a plan as it is; the executor follows it.
\<close>

theorem should_continue_priority:
  "messages st \<noteq> [] \<Longrightarrow>
     should_continue st =
       Inr (if tool_calls (last (messages st)) \<noteq> [] then ''tools''
            else if (\<exists>p. plan st = Some p \<and> is_complete p) then ''report''
            else if phase st = ''executing'' then ''advance''
            else ''executor'') \<and>
     next_node executor st =
       Inr (Some (if tool_calls (last (messages st)) \<noteq> [] then tools
                  else if (\<exists>p. plan st = Some p \<and> is_complete p) then reporter
                  else if phase st = ''executing'' then advance_n
                  else executor)) \<and>
     run_node llm registry advance_n st = Inr (st\<lparr>plan := map_option advance (plan st)\<rparr>) \<and>
     (plan st = Some q \<longrightarrow>
        map_option current_step (plan (advance_plan st)) = Some (current_step q + 1)) \<and>
     next_node advance_n (advance_plan st) = Inr (Some executor)"
proof -
  assume ne: "messages st \<noteq> []"
  have sc: "should_continue st =
       Inr (if tool_calls (last (messages st)) \<noteq> [] then ''tools''
            else if (\<exists>p. plan st = Some p \<and> is_complete p) then ''report''
            else if phase st = ''executing'' then ''advance''
            else ''executor'')"
    using py_index_last [OF ne]
    by (cases "plan st") (simp_all add: should_continue_def)
  have nn: "next_node executor st =
       Inr (Some (if tool_calls (last (messages st)) \<noteq> [] then tools
                  else if (\<exists>p. plan st = Some p \<and> is_complete p) then reporter
                  else if phase st = ''executing'' then advance_n
                  else executor))"
    unfolding next_node_def sc by (auto simp: conditional_edges_def)
  have adv: "advance_plan st = st\<lparr>plan := map_option advance (plan st)\<rparr>"
    by (cases "plan st") (simp_all add: advance_plan_def)
  have rn: "run_node llm registry advance_n st = Inr (st\<lparr>plan := map_option advance (plan st)\<rparr>)"
    by (simp add: run_node_def adv)
  have cur: "plan st = Some q \<longrightarrow>
        map_option current_step (plan (advance_plan st)) = Some (current_step q + 1)"
    by (simp add: adv advance_def)
  have again: "next_node advance_n (advance_plan st) = Inr (Some executor)"
    by (simp add: next_node_def)
  from sc nn rn cur again show ?thesis by blast
qed

text \<open>The theorem at the final state of the scenario: no tool call, a complete plan.\<close>

theorem should_continue_priority_witness:
  "messages scenario_final \<noteq> [] \<and>
   should_continue scenario_final = Inr ''report'' \<and>
   next_node executor scenario_final = Inr (Some reporter) \<and>
   map_option current_step (plan (advance_plan scenario_final)) = Some 2"
proof -
  have ne: "messages scenario_final \<noteq> []"
    by (simp add: scenario_final_def)
  have l: "tool_calls (last (messages scenario_final)) = []"
    by (simp add: scenario_final_def final_report_def)
  have c: "\<exists>p. plan scenario_final = Some p \<and> is_complete p"
    by (simp add: scenario_final_def is_complete_def)
  have q: "plan scenario_final = Some \<lparr>objective = ''list SSH keys'', steps = [''find_ssh_keys''],
                    current_step = 1, findings = []\<rparr>"
    by (simp add: scenario_final_def)
  from should_continue_priority [OF ne, of scenario_llm scenario_registry
         "\<lparr>objective = ''list SSH keys'', steps = [''find_ssh_keys''],
                    current_step = 1, findings = []\<rparr>"] ne l c q
  show ?thesis by simp
qed

text \<open>
  On the empty transcript there is no last message and \<open>should_continue\<close> raises instead of
  choosing a node; and on a state with no plan the advance node has no cursor to move.
\<close>

theorem should_continue_empty_transcript_counterexample:
  "should_continue \<lparr>messages = [], plan = None, state_findings = [], phase = ''executing''\<rparr>
     = Inl (IndexError ''list index out of range'') \<and>
   should_continue \<lparr>messages = [HumanMessage ''o''], plan = None, state_findings = [],
                     phase = ''executing''\<rparr> = Inr ''advance'' \<and>
   advance_plan \<lparr>messages = [HumanMessage ''o''], plan = None, state_findings = [],
                  phase = ''executing''\<rparr>
     = \<lparr>messages = [HumanMessage ''o''], plan = None, state_findings = [],
         phase = ''executing''\<rparr>"
  by (simp add: should_continue_def py_index_def advance_plan_def)

section \<open>C5: the planner's parser\<close>

lemma parse_lines_append:
  "parse_lines (xs @ ys) acc = parse_lines ys (parse_lines xs acc)"
  by (induction xs arbitrary: acc) simp_all

lemma parse_line_objective_kept:
  "\<not> startswith line ''OBJECTIVE:'' \<Longrightarrow> fst (parse_line line (obj, stps, ps)) = obj"
  by (simp add: parse_line_def Let_def)

lemma parse_lines_objective_kept:
  "\<forall>line \<in> set ls. \<not> startswith line ''OBJECTIVE:'' \<Longrightarrow>
     fst (parse_lines ls (obj, stps, ps)) = obj"
proof (induction ls arbitrary: stps ps)
  case Nil
  then show ?case by simp
next
  case (Cons line ls)
  obtain obj' stps' ps' where step: "parse_line line (obj, stps, ps) = (obj', stps', ps')"
    by (cases "parse_line line (obj, stps, ps)") auto
  from Cons.prems have "\<not> startswith line ''OBJECTIVE:''" by simp
  from parse_line_objective_kept [OF this, of obj stps ps] step have "obj' = obj" by simp
  with Cons step show ?case by simp
qed

lemma parse_lines_preamble:
  "\<forall>line \<in> set ls. \<not> startswith line ''OBJECTIVE:'' \<and> \<not> startswith line ''STEPS:'' \<Longrightarrow>
     parse_lines ls (obj, stps, False) = (obj, stps, False)"
  by (induction ls) (simp_all add: parse_line_def)

lemma example_lines:
  "parse_lines [''OBJECTIVE: Assess X'', ''STEPS:'', ''1. Check Y'', ''2. Check Z''] ([], [], False)
     = (''Assess X'', [''Check Y'', ''Check Z''], True)"
  by code_simp

lemma split1_last_after:
  assumes "c \<notin> set pre"
  shows "split1_last c (pre @ c # rest) = rest"
proof -
  have "dropWhile (\<lambda>x. x \<noteq> c) (pre @ c # rest) = c # rest"
    using assms by (induction pre) auto
  then show ?thesis by (simp add: split1_last_def)
qed

lemma strip_numbering_digit:
  "isdigit d \<Longrightarrow> CHR ''.'' \<notin> set (d # ds) \<Longrightarrow>
     strip_numbering (d # ds @ ''.'' @ rest) = strip rest"
  using split1_last_after [of "CHR ''.''" "d # ds" rest] by simp

lemma strip_numbering_bullet: "strip_numbering (''-'' @ rest) = strip rest"
  by (simp add: isdigit_def startswith_def)

text \<open>
  C5. The text \<open>OBJECTIVE: Assess X\<close>, \<open>STEPS:\<close>, \<open>1. Check Y\<close>, \<open>2. Check Z\<close>, one a line,
  parses to the objective \<open>Assess X\<close> and exactly the steps \<open>Check Y\<close> and \<open>Check Z\<close>; so
  does every text that, once stripped and split into lines, ends with these four lines
  after lines that start with neither marker.  A step line that starts with a digit loses
  everything up to its first full stop, one that starts with a hyphen loses the hyphen, and
  what is left is stripped.  When no line starts with \<open>OBJECTIVE:\<close> the objective is the
  label \<open>Security assessment\<close>.
\<close>

theorem parse_plan_example:
  "parse_plan ''OBJECTIVE: Assess X\<newline>STEPS:\<newline>1. Check Y\<newline>2. Check Z''
     = new_plan ''Assess X'' [''Check Y'', ''Check Z''] \<and>
   (split_on (CHR ''\<newline>'') (strip text)
      = pre @ [''OBJECTIVE: Assess X'', ''STEPS:'', ''1. Check Y'', ''2. Check Z''] \<and>
    (\<forall>line \<in> set pre. \<not> startswith line ''OBJECTIVE:'' \<and> \<not> startswith line ''STEPS:'') \<longrightarrow>
      parse_plan text = new_plan ''Assess X'' [''Check Y'', ''Check Z'']) \<and>
   (isdigit d \<and> CHR ''.'' \<notin> set (d # ds) \<longrightarrow>
      strip_numbering (d # ds @ ''.'' @ rest) = strip rest) \<and>
   strip_numbering (''-'' @ rest) = strip rest \<and>
   ((\<forall>line \<in> set (split_on (CHR ''\<newline>'') (strip text')). \<not> startswith line ''OBJECTIVE:'') \<longrightarrow>
      objective (parse_plan text') = ''Security assessment'')"
proof -
  have one: "parse_plan ''OBJECTIVE: Assess X\<newline>STEPS:\<newline>1. Check Y\<newline>2. Check Z''
     = new_plan ''Assess X'' [''Check Y'', ''Check Z'']"
    by code_simp
  have two: "split_on (CHR ''\<newline>'') (strip text)
      = pre @ [''OBJECTIVE: Assess X'', ''STEPS:'', ''1. Check Y'', ''2. Check Z''] \<and>
    (\<forall>line \<in> set pre. \<not> startswith line ''OBJECTIVE:'' \<and> \<not> startswith line ''STEPS:'') \<longrightarrow>
      parse_plan text = new_plan ''Assess X'' [''Check Y'', ''Check Z'']"
  proof
    assume h: "split_on (CHR ''\<newline>'') (strip text)
      = pre @ [''OBJECTIVE: Assess X'', ''STEPS:'', ''1. Check Y'', ''2. Check Z''] \<and>
    (\<forall>line \<in> set pre. \<not> startswith line ''OBJECTIVE:'' \<and> \<not> startswith line ''STEPS:'')"
    then have pre: "parse_lines pre ([], [], False) = ([], [], False)"
      using parse_lines_preamble [of pre "[]" "[]"] by blast
    from h have "parse_lines (split_on (CHR ''\<newline>'') (strip text)) ([], [], False)
                 = (''Assess X'', [''Check Y'', ''Check Z''], True)"
      by (simp only: parse_lines_append pre example_lines)
    then show "parse_plan text = new_plan ''Assess X'' [''Check Y'', ''Check Z'']"
      by (simp add: parse_plan_def)
  qed
  have three: "isdigit d \<and> CHR ''.'' \<notin> set (d # ds) \<longrightarrow>
      strip_numbering (d # ds @ ''.'' @ rest) = strip rest"
    using strip_numbering_digit by blast
  have five: "(\<forall>line \<in> set (split_on (CHR ''\<newline>'') (strip text')). \<not> startswith line ''OBJECTIVE:'') \<longrightarrow>
      objective (parse_plan text') = ''Security assessment''"
  proof
    assume h: "\<forall>line \<in> set (split_on (CHR ''\<newline>'') (strip text')). \<not> startswith line ''OBJECTIVE:''"
    obtain obj stps ps where r:
      "parse_lines (split_on (CHR ''\<newline>'') (strip text')) ([], [], False) = (obj, stps, ps)"
      by (cases "parse_lines (split_on (CHR ''\<newline>'') (strip text')) ([], [], False)") auto
    from parse_lines_objective_kept [OF h, of "[]" "[]" False] r have "obj = []" by simp
    with r show "objective (parse_plan text') = ''Security assessment''"
      by (simp add: parse_plan_def new_plan_def)
  qed
  from one two three five strip_numbering_bullet show ?thesis by blast
qed

text \<open>
  The theorem at an answer that opens with a sentence and ends with a line break, at a
  numbered and at a bulleted step line, and at an answer with no objective line.
\<close>

theorem parse_plan_example_witness:
  "parse_plan ''Here is the plan:\<newline>\<newline>OBJECTIVE: Assess X\<newline>STEPS:\<newline>1. Check Y\<newline>2. Check Z\<newline>''
     = new_plan ''Assess X'' [''Check Y'', ''Check Z''] \<and>
   strip_numbering ''12. Check Y'' = ''Check Y'' \<and>
   strip_numbering ''- Check Y'' = ''Check Y'' \<and>
   objective (parse_plan ''STEPS:\<newline>- a'') = ''Security assessment''"
proof -
  let ?text = "''Here is the plan:\<newline>\<newline>OBJECTIVE: Assess X\<newline>STEPS:\<newline>1. Check Y\<newline>2. Check Z\<newline>''"
  let ?pre = "[''Here is the plan:'', []]"
  have lines: "split_on (CHR ''\<newline>'') (strip ?text)
      = ?pre @ [''OBJECTIVE: Assess X'', ''STEPS:'', ''1. Check Y'', ''2. Check Z'']"
    by code_simp
  have pre: "\<forall>line \<in> set ?pre. \<not> startswith line ''OBJECTIVE:'' \<and> \<not> startswith line ''STEPS:''"
    by (simp add: startswith_def)
  have digit: "isdigit (CHR ''1'') \<and> CHR ''.'' \<notin> set (CHR ''1'' # ''2'')"
    by (simp add: isdigit_def)
  have none: "\<forall>line \<in> set (split_on (CHR ''\<newline>'') (strip ''STEPS:\<newline>- a'')).
                \<not> startswith line ''OBJECTIVE:''"
    by code_simp
  have stripped: "strip '' Check Y'' = ''Check Y''"
    by code_simp
  note all = parse_plan_example [of ?text ?pre "CHR ''1''" "''2''" "'' Check Y''" "''STEPS:\<newline>- a''"]
  from all lines pre have a: "parse_plan ?text = new_plan ''Assess X'' [''Check Y'', ''Check Z'']"
    by blast
  from all digit stripped have b: "strip_numbering ''12. Check Y'' = ''Check Y''"
    by simp
  from all stripped have c: "strip_numbering ''- Check Y'' = ''Check Y''"
    by simp
  from all none have d: "objective (parse_plan ''STEPS:\<newline>- a'') = ''Security assessment''"
    by blast
  from a b c d show ?thesis by blast
qed

section \<open>C2: the end-to-end scenario\<close>






end
